theory Spec2Isabelle
  imports Main
begin

section \<open>The values the parser receives\<close>

text \<open>
  \<^verbatim>\<open>call_api\<close> hands \<^verbatim>\<open>ApiResponse\<close> the value of \<^verbatim>\<open>request('GET', url).json()\<close>:
  a decoded JSON document, made of \<^verbatim>\<open>None\<close>, \<^verbatim>\<open>bool\<close>, \<^verbatim>\<open>int\<close>, \<^verbatim>\<open>float\<close>, \<^verbatim>\<open>str\<close>,
  \<^verbatim>\<open>list\<close> and \<^verbatim>\<open>dict\<close> with \<^verbatim>\<open>str\<close> keys.

  A \<^verbatim>\<open>str\<close> is a \<open>string\<close>, one \<open>char\<close> for each code point (code points below 256).
  A \<^verbatim>\<open>dict\<close> is the list of its items in insertion order; keys are looked up with
  \<open>map_of\<close>. The program never computes with a \<^verbatim>\<open>float\<close>: it can only test its truth value
  and format it with \<^verbatim>\<open>%s\<close>, so a float is carried as these two observations.
\<close>

datatype pyfloat = PyFloat (float_nonzero: bool) (float_repr: string)

datatype json =
    JNull
  | JBool bool
  | JInt int
  | JFloat pyfloat
  | JStr string
  | JList "json list"
  | JDict "(string \<times> json) list"

subsection \<open>Truth value of a Python object\<close>

fun py_truthy :: "json \<Rightarrow> bool" where
  "py_truthy JNull = False"
| "py_truthy (JBool b) = b"
| "py_truthy (JInt i) = (i \<noteq> 0)"
| "py_truthy (JFloat f) = float_nonzero f"
| "py_truthy (JStr s) = (s \<noteq> [])"
| "py_truthy (JList xs) = (xs \<noteq> [])"
| "py_truthy (JDict d) = (d \<noteq> [])"

subsection \<open>\<^verbatim>\<open>str.split(sep)\<close> with a one-character separator\<close>

text \<open>
  Every occurrence of the separator ends a piece, so adjacent separators and separators
  at either end give empty pieces, and the result is never the empty list.
\<close>

fun split_on :: "char \<Rightarrow> string \<Rightarrow> string list" where
  "split_on c [] = [[]]"
| "split_on c (x # xs) =
     (if x = c then [] # split_on c xs
      else (case split_on c xs of
              [] \<Rightarrow> [[x]]
            | w # ws \<Rightarrow> (x # w) # ws))"

subsection \<open>\<^verbatim>\<open>str()\<close> and \<^verbatim>\<open>repr()\<close>, as \<^verbatim>\<open>%s\<close> formatting uses them\<close>

definition digit_char :: "nat \<Rightarrow> char" where
  "digit_char n = ''0123456789abcdef'' ! (n mod 16)"

fun show_nat :: "nat \<Rightarrow> string" where
  "show_nat n =
     (if n < 10 then [digit_char n] else show_nat (n div 10) @ [digit_char (n mod 10)])"

declare show_nat.simps [simp del]

definition show_int :: "int \<Rightarrow> string" where
  "show_int i = (if i < 0 then CHR ''-'' # show_nat (nat (- i)) else show_nat (nat i))"

definition hex_escape :: "char \<Rightarrow> string" where
  "hex_escape c =
     [CHR 0x5C, CHR ''x'', digit_char (of_char c div 16), digit_char (of_char c mod 16)]"

definition repr_quote :: "string \<Rightarrow> char" where
  "repr_quote s = (if CHR 0x27 \<in> set s \<and> CHR 0x22 \<notin> set s then CHR 0x22 else CHR 0x27)"

definition repr_char :: "char \<Rightarrow> char \<Rightarrow> string" where
  "repr_char q c =
     (let n = (of_char c :: nat) in
      if c = q \<or> c = CHR 0x5C then [CHR 0x5C, c]
      else if c = CHR 0x09 then [CHR 0x5C, CHR ''t'']
      else if c = CHR 0x0A then [CHR 0x5C, CHR ''n'']
      else if c = CHR 0x0D then [CHR 0x5C, CHR ''r'']
      else if n < 32 \<or> n = 127 then hex_escape c
      else if n < 127 then [c]
      else if n \<le> 160 \<or> n = 173 then hex_escape c
      else [c])"

definition repr_str :: "string \<Rightarrow> string" where
  "repr_str s = (let q = repr_quote s in [q] @ concat (map (repr_char q) s) @ [q])"

fun join :: "string \<Rightarrow> string list \<Rightarrow> string" where
  "join sep [] = []"
| "join sep [x] = x"
| "join sep (x # y # ys) = x @ sep @ join sep (y # ys)"

fun py_repr :: "json \<Rightarrow> string" where
  "py_repr JNull = ''None''"
| "py_repr (JBool b) = (if b then ''True'' else ''False'')"
| "py_repr (JInt i) = show_int i"
| "py_repr (JFloat f) = float_repr f"
| "py_repr (JStr s) = repr_str s"
| "py_repr (JList xs) = ''['' @ join '', '' (map py_repr xs) @ '']''"
| "py_repr (JDict d) =
     ''{'' @ join '', '' (map (\<lambda>(k, v). repr_str k @ '': '' @ py_repr v) d) @ ''}''"

definition py_str :: "json \<Rightarrow> string" where
  "py_str v = (case v of JStr s \<Rightarrow> s | _ \<Rightarrow> py_repr v)"

section \<open>The typed records\<close>

text \<open>
  The four \<^verbatim>\<open>NamedTuple\<close>s. A \<^verbatim>\<open>NamedTuple\<close> stores its arguments as they come: the
  declared field types are not checked, so a field of \<^verbatim>\<open>Source\<close>, \<^verbatim>\<open>Article\<close> or
  \<^verbatim>\<open>MetaData\<close> holds whatever JSON value the document had there. The two fields of an
  \<^verbatim>\<open>Author\<close> are always pieces of a split string.
\<close>

datatype Author = Author (firstName: string) (lastName: string)

datatype Source = Source (source_id: json) (source_name: json)

datatype Article =
  Article (title: json) (description: json) (url: json) (urlToImage: json)
    (publishedAt: json) (content: json)

datatype MetaData = MetaData (totalResults: json)

datatype exn =
    TypeError
  | AttributeError
  | SourceError string
  | ResponseError string

subsection \<open>The logger\<close>

text \<open>
  \<^verbatim>\<open>_LOGGER\<close> is the only object outside a call's own variables that the code touches.
  Its state is the list of the \<^verbatim>\<open>_LOGGER.log\<close> calls made so far: the level, the format
  string and the exception object passed as its argument.
\<close>

datatype level = INFO | WARNING

datatype record_exn =
    RecordCreationError json
  | AuthorCreationError json
  | SourceCreationError json
  | ArticleCreationError json

datatype log_call = LogCall level string record_exn

type_synonym logger = "log_call list"

definition LOGGER_log :: "level \<Rightarrow> string \<Rightarrow> record_exn \<Rightarrow> logger \<Rightarrow> logger" where
  "LOGGER_log lv fmt e lg = lg @ [LogCall lv fmt e]"

section \<open>Authors\<close>

text \<open>
  \<^verbatim>\<open>author_name.split(" ")\<close>: only a \<^verbatim>\<open>str\<close> has the attribute \<^verbatim>\<open>split\<close>.
\<close>

definition py_split :: "json \<Rightarrow> exn + string list" where
  "py_split v = (case v of JStr s \<Rightarrow> Inr (split_on CHR '' '' s) | _ \<Rightarrow> Inl AttributeError)"

text \<open>\<^verbatim>\<open>Author(*parts)\<close>: the constructor takes exactly two positional arguments.\<close>

definition Author_new :: "string list \<Rightarrow> exn + Author" where
  "Author_new parts = (case parts of [a, b] \<Rightarrow> Inr (Author a b) | _ \<Rightarrow> Inl TypeError)"

text \<open>
  What \<^verbatim>\<open>add_author\<close> returns: an \<^verbatim>\<open>Author\<close>, or a Python value that is not one
  (\<^verbatim>\<open>None\<close>, or the argument itself when it is falsy).
\<close>

datatype author_ret = IsAuthor Author | NotAuthor json

definition add_author_try :: "json \<Rightarrow> exn + author_ret" where
  "add_author_try author_name =
     (if py_truthy author_name then
        (case py_split author_name of
           Inl e \<Rightarrow> Inl e
         | Inr parts \<Rightarrow>
             (case Author_new parts of
                Inl e \<Rightarrow> Inl e
              | Inr a \<Rightarrow> Inr (IsAuthor a)))
      else Inr (NotAuthor author_name))"

definition add_author :: "json \<Rightarrow> logger \<Rightarrow> author_ret \<times> logger" where
  "add_author author_name lg =
     (case add_author_try author_name of
        Inr r \<Rightarrow> (r, lg)
      | Inl TypeError \<Rightarrow>
          (NotAuthor JNull,
           LOGGER_log INFO ''Couldn't create author record: %s''
             (AuthorCreationError author_name) lg)
      | Inl _ \<Rightarrow>
          (NotAuthor JNull,
           LOGGER_log WARNING ''Unhandled Exception: %s''
             (AuthorCreationError author_name) lg))"

section \<open>Sources\<close>

text \<open>
  The mapping pattern \<^verbatim>\<open>{'id': ident, 'name': name}\<close> matches a \<^verbatim>\<open>dict\<close> that has both
  keys; the two capture patterns accept any value, and other keys are ignored.
\<close>

definition make_source :: "json \<Rightarrow> exn + Source" where
  "make_source source_raw =
     (case source_raw of
        JDict d \<Rightarrow>
          (case (map_of d ''id'', map_of d ''name'') of
             (Some ident, Some name) \<Rightarrow> Inr (Source ident name)
           | _ \<Rightarrow> Inl (SourceError ''Unknown Source Format.''))
      | _ \<Rightarrow> Inl (SourceError ''Unknown Source Format.''))"

definition add_source :: "json \<Rightarrow> logger \<Rightarrow> Source option \<times> logger" where
  "add_source source_info lg =
     (case make_source source_info of
        Inr source \<Rightarrow> (Some source, lg)
      | Inl TypeError \<Rightarrow>
          (None,
           LOGGER_log INFO ''Unable to create source: %s''
             (SourceCreationError source_info) lg)
      | Inl (SourceError m) \<Rightarrow>
          (None,
           LOGGER_log INFO ''Unable to create source: %s''
             (SourceCreationError source_info) lg)
      | Inl _ \<Rightarrow>
          (None,
           LOGGER_log WARNING ''Unhandled exception: %s''
             (SourceCreationError source_info) lg))"

section \<open>Articles\<close>

text \<open>
  \<^verbatim>\<open>Article(**article_data)\<close>: every key must be the name of a field, and every field
  must be given; otherwise the call raises \<^verbatim>\<open>TypeError\<close>. The values are stored as they are.
\<close>

definition Article_fields :: "string list" where
  "Article_fields =
     [''title'', ''description'', ''url'', ''urlToImage'', ''publishedAt'', ''content'']"

definition Article_new :: "(string \<times> json) list \<Rightarrow> exn + Article" where
  "Article_new kw =
     (if list_all (\<lambda>(k, v). k \<in> set Article_fields) kw then
        (case map_of kw ''title'' of None \<Rightarrow> Inl TypeError | Some t \<Rightarrow>
        (case map_of kw ''description'' of None \<Rightarrow> Inl TypeError | Some d \<Rightarrow>
        (case map_of kw ''url'' of None \<Rightarrow> Inl TypeError | Some u \<Rightarrow>
        (case map_of kw ''urlToImage'' of None \<Rightarrow> Inl TypeError | Some i \<Rightarrow>
        (case map_of kw ''publishedAt'' of None \<Rightarrow> Inl TypeError | Some p \<Rightarrow>
        (case map_of kw ''content'' of None \<Rightarrow> Inl TypeError | Some c \<Rightarrow>
           Inr (Article t d u i p c)))))))
      else Inl TypeError)"

text \<open>
  The pattern \<^verbatim>\<open>{'source': {**source_raw}, 'author': author_raw, **article_data}\<close>:
  a \<^verbatim>\<open>dict\<close> with a key \<^verbatim>\<open>source\<close> holding a \<^verbatim>\<open>dict\<close> and a key \<^verbatim>\<open>author\<close> holding
  anything; \<^verbatim>\<open>article_data\<close> is the rest of the items.
\<close>

definition match_article ::
  "json \<Rightarrow> ((string \<times> json) list \<times> json \<times> (string \<times> json) list) option" where
  "match_article article_raw =
     (case article_raw of
        JDict d \<Rightarrow>
          (case (map_of d ''source'', map_of d ''author'') of
             (Some (JDict source_raw), Some author_raw) \<Rightarrow>
               Some (source_raw, author_raw,
                     filter (\<lambda>(k, v). k \<noteq> ''source'' \<and> k \<noteq> ''author'') d)
           | _ \<Rightarrow> None)
      | _ \<Rightarrow> None)"

type_synonym article_record = "Source option \<times> author_ret \<times> Article"

definition make_article_record :: "json \<Rightarrow> logger \<Rightarrow> article_record option \<times> logger" where
  "make_article_record article_raw lg =
     (case match_article article_raw of
        Some (source_raw, author_raw, article_data) \<Rightarrow>
          (let (source, lg1) = add_source (JDict source_raw) lg;
               (author, lg2) = add_author author_raw lg1
           in case Article_new article_data of
                Inr article \<Rightarrow> (Some (source, author, article), lg2)
              | Inl TypeError \<Rightarrow>
                  (None,
                   LOGGER_log INFO ''Ran into an error creating article object: %s''
                     (ArticleCreationError (JDict article_data)) lg2)
              | Inl _ \<Rightarrow>
                  (None,
                   LOGGER_log WARNING ''Unhandled exception: %s''
                     (RecordCreationError article_raw) lg2))
      | None \<Rightarrow>
          (None,
           LOGGER_log INFO ''Unpatterned article: %s'' (ArticleCreationError article_raw) lg))"

text \<open>
  \<^verbatim>\<open>Articles.__init__\<close> extends the empty list with the generator
  \<^verbatim>\<open>(self.__make_article_record(article_raw) for article_raw in articles if not None)\<close>.
  The condition of the generator is the constant \<^verbatim>\<open>not None\<close>.
\<close>

datatype Articles = Articles (articles: "article_record option list")

fun article_records :: "json list \<Rightarrow> logger \<Rightarrow> article_record option list \<times> logger" where
  "article_records [] lg = ([], lg)"
| "article_records (article_raw # rest) lg =
     (if \<not> py_truthy JNull then
        (let (r, lg1) = make_article_record article_raw lg;
             (rs, lg2) = article_records rest lg1
         in (r # rs, lg2))
      else article_records rest lg)"

definition Articles_init :: "json list \<Rightarrow> logger \<Rightarrow> Articles \<times> logger" where
  "Articles_init arts lg = (let (rs, lg1) = article_records arts lg in (Articles ([] @ rs), lg1))"

section \<open>The response\<close>

text \<open>
  The first pattern, \<^verbatim>\<open>{'status':'ok', 'totalResults':total_results, 'articles':[*articles]}\<close>:
  a \<^verbatim>\<open>dict\<close> with the three keys, whose \<^verbatim>\<open>status\<close> equals \<^verbatim>\<open>'ok'\<close> and whose \<^verbatim>\<open>articles\<close>
  is a sequence (of the decoded JSON values, only a \<^verbatim>\<open>list\<close> is one: a sequence pattern
  does not match a \<^verbatim>\<open>str\<close>). \<^verbatim>\<open>total_results\<close> is a capture pattern.
\<close>

definition match_ok :: "json \<Rightarrow> (json \<times> json list) option" where
  "match_ok response_obj =
     (case response_obj of
        JDict d \<Rightarrow>
          (case (map_of d ''status'', map_of d ''totalResults'', map_of d ''articles'') of
             (Some status, Some total_results, Some (JList arts)) \<Rightarrow>
               if status = JStr ''ok'' then Some (total_results, arts) else None
           | _ \<Rightarrow> None)
      | _ \<Rightarrow> None)"

text \<open>The second pattern, \<^verbatim>\<open>{'status':'error', 'code':code, 'message':message}\<close>.\<close>

definition match_error :: "json \<Rightarrow> (json \<times> json) option" where
  "match_error response_obj =
     (case response_obj of
        JDict d \<Rightarrow>
          (case (map_of d ''status'', map_of d ''code'', map_of d ''message'') of
             (Some status, Some code, Some message) \<Rightarrow>
               if status = JStr ''error'' then Some (code, message) else None
           | _ \<Rightarrow> None)
      | _ \<Rightarrow> None)"

definition match_response :: "json \<Rightarrow> logger \<Rightarrow> (exn + MetaData \<times> Articles) \<times> logger" where
  "match_response response_obj lg =
     (case match_ok response_obj of
        Some (total_results, arts) \<Rightarrow>
          (let (a, lg1) = Articles_init arts lg in (Inr (MetaData total_results, a), lg1))
      | None \<Rightarrow>
          (case match_error response_obj of
             Some (code, message) \<Rightarrow>
               (Inl (ResponseError
                      (''Error Code: '' @ py_str code @ [CHR 0x0A] @ ''Message: '' @ py_str message)),
                lg)
           | None \<Rightarrow>
               (Inl (ResponseError (''Not yet patterned response: '' @ py_str response_obj)), lg)))"

record ApiResponse =
  metadata :: MetaData
  response_articles :: Articles

definition ApiResponse_init :: "json \<Rightarrow> logger \<Rightarrow> (exn + ApiResponse) \<times> logger" where
  "ApiResponse_init response lg =
     (case match_response response lg of
        (Inl e, lg1) \<Rightarrow> (Inl e, lg1)
      | (Inr (m, a), lg1) \<Rightarrow> (Inr \<lparr>metadata = m, response_articles = a\<rparr>, lg1))"

section \<open>The specification's reading of the builders\<close>

text \<open>
  The specification describes \<^verbatim>\<open>buildAuthor\<close> in its own words: a string that splits
  into exactly two non-empty whitespace-delimited tokens gives \<^verbatim>\<open>Author(token0, token1)\<close>,
  anything else gives no author. These definitions follow those words, to be compared
  with \<open>add_author\<close>.
\<close>

definition is_space :: "char \<Rightarrow> bool" where
  "is_space c = (c \<in> set [CHR 0x20, CHR 0x09, CHR 0x0A, CHR 0x0B, CHR 0x0C, CHR 0x0D])"

fun ws_split :: "string \<Rightarrow> string list" where
  "ws_split [] = [[]]"
| "ws_split (x # xs) =
     (if is_space x then [] # ws_split xs
      else (case ws_split xs of
              [] \<Rightarrow> [[x]]
            | w # ws \<Rightarrow> (x # w) # ws))"

definition ws_tokens :: "string \<Rightarrow> string list" where
  "ws_tokens s = filter (\<lambda>w. w \<noteq> []) (ws_split s)"

definition buildAuthor_spec :: "json \<Rightarrow> Author option" where
  "buildAuthor_spec raw =
     (case raw of
        JStr s \<Rightarrow> (case ws_tokens s of [a, b] \<Rightarrow> Some (Author a b) | _ \<Rightarrow> None)
      | _ \<Rightarrow> None)"

text \<open>
  The specification's source shape: a mapping with a key \<^verbatim>\<open>id\<close> holding a string or null
  and a key \<^verbatim>\<open>name\<close> holding a string.
\<close>

definition is_str :: "json \<Rightarrow> bool" where
  "is_str v = (case v of JStr s \<Rightarrow> True | _ \<Rightarrow> False)"

definition source_shape_spec :: "json \<Rightarrow> bool" where
  "source_shape_spec raw =
     (case raw of
        JDict d \<Rightarrow>
          (case (map_of d ''id'', map_of d ''name'') of
             (Some i, Some n) \<Rightarrow> (is_str i \<or> i = JNull) \<and> is_str n
           | _ \<Rightarrow> False)
      | _ \<Rightarrow> False)"

section \<open>The shapes of a response\<close>

text \<open>
  The two shapes the patterns of \<open>match_response\<close> recognise, written on the keys of the
  document: a mapping whose \<^verbatim>\<open>status\<close> is \<^verbatim>\<open>'ok'\<close>, that has a key \<^verbatim>\<open>totalResults\<close> and
  whose \<^verbatim>\<open>articles\<close> is a list; and a mapping whose \<^verbatim>\<open>status\<close> is \<^verbatim>\<open>'error'\<close> and that
  has the keys \<^verbatim>\<open>code\<close> and \<^verbatim>\<open>message\<close>.
\<close>

definition is_list :: "json \<Rightarrow> bool" where
  "is_list v = (case v of JList xs \<Rightarrow> True | _ \<Rightarrow> False)"

definition success_shape :: "json \<Rightarrow> bool" where
  "success_shape r =
     (case r of
        JDict d \<Rightarrow>
          map_of d ''status'' = Some (JStr ''ok'')
          \<and> ''totalResults'' \<in> set (map fst d)
          \<and> (case map_of d ''articles'' of Some a \<Rightarrow> is_list a | None \<Rightarrow> False)
      | _ \<Rightarrow> False)"

definition reported_error_shape :: "json \<Rightarrow> bool" where
  "reported_error_shape r =
     (case r of
        JDict d \<Rightarrow>
          map_of d ''status'' = Some (JStr ''error'')
          \<and> ''code'' \<in> set (map fst d)
          \<and> ''message'' \<in> set (map fst d)
      | _ \<Rightarrow> False)"

text \<open>
  The success shape in the specification's words: \<^verbatim>\<open>status == "ok"\<close>, an integer
  \<^verbatim>\<open>totalResults\<close> and a list \<^verbatim>\<open>articles\<close>.
\<close>

definition is_int :: "json \<Rightarrow> bool" where
  "is_int v = (case v of JInt n \<Rightarrow> True | _ \<Rightarrow> False)"

definition success_shape_spec :: "json \<Rightarrow> bool" where
  "success_shape_spec r =
     (case r of
        JDict d \<Rightarrow>
          map_of d ''status'' = Some (JStr ''ok'')
          \<and> (case map_of d ''totalResults'' of Some t \<Rightarrow> is_int t | None \<Rightarrow> False)
          \<and> (case map_of d ''articles'' of Some a \<Rightarrow> is_list a | None \<Rightarrow> False)
      | _ \<Rightarrow> False)"

section \<open>Splitting at a separator\<close>

lemma split_on_not_Nil: "split_on c s \<noteq> []"
  by (induction s) (auto split: list.splits)

lemma split_on_no_sep: "c \<notin> set s \<Longrightarrow> split_on c s = [s]"
  by (induction s) auto

lemma split_on_append: "c \<notin> set a \<Longrightarrow> split_on c (a @ c # t) = a # split_on c t"
  by (induction a) auto

lemma split_on_Cons:
  "split_on c s = w # ws \<Longrightarrow>
     c \<notin> set w \<and> (if ws = [] then s = w else \<exists>t. s = w @ c # t \<and> split_on c t = ws)"
proof (induction s arbitrary: w ws)
  case Nil
  then show ?case by simp
next
  case (Cons x xs)
  show ?case
  proof (cases "x = c")
    case True
    with Cons.prems have "w = []" "ws = split_on c xs" by auto
    with True show ?thesis by (simp add: split_on_not_Nil)
  next
    case False
    obtain v vs where v: "split_on c xs = v # vs"
      using split_on_not_Nil [of c xs] by (cases "split_on c xs") auto
    with False Cons.prems have w: "w = x # v" "ws = vs" by auto
    from Cons.IH [OF v] False w show ?thesis by auto
  qed
qed

lemma split_on_single: "split_on c s = [a] \<longleftrightarrow> s = a \<and> c \<notin> set a"
  using split_on_Cons [of c s a "[]"] split_on_no_sep [of c s] by auto

lemma split_on_pair:
  "split_on c s = [a, b] \<longleftrightarrow> s = a @ c # b \<and> c \<notin> set a \<and> c \<notin> set b"
proof
  assume h: "split_on c s = [a, b]"
  from split_on_Cons [OF h] obtain t where
    t: "c \<notin> set a" "s = a @ c # t" "split_on c t = [b]" by auto
  from t(3) have "t = b" "c \<notin> set b" by (simp_all add: split_on_single)
  with t show "s = a @ c # b \<and> c \<notin> set a \<and> c \<notin> set b" by simp
next
  assume "s = a @ c # b \<and> c \<notin> set a \<and> c \<notin> set b"
  then show "split_on c s = [a, b]"
    by (simp add: split_on_append split_on_no_sep)
qed

section \<open>Results do not depend on the logger\<close>

text \<open>
  Each function only appends to the logger, and what it returns is computed from its
  argument alone.
\<close>

lemma add_author_fst:
  "fst (add_author v lg) = (case add_author_try v of Inr r \<Rightarrow> r | Inl e \<Rightarrow> NotAuthor JNull)"
  by (simp add: add_author_def split: sum.splits exn.splits)

lemma add_source_fst:
  "fst (add_source v lg) = (case make_source v of Inr s \<Rightarrow> Some s | Inl e \<Rightarrow> None)"
  by (simp add: add_source_def split: sum.splits exn.splits)

lemma make_article_record_fst:
  "fst (make_article_record a lg) =
     (case match_article a of
        None \<Rightarrow> None
      | Some (src, au, dat) \<Rightarrow>
          (case Article_new dat of
             Inl e \<Rightarrow> None
           | Inr art \<Rightarrow> Some (fst (add_source (JDict src) []), fst (add_author au []), art)))"
  by (simp add: make_article_record_def add_author_fst add_source_fst case_prod_beta
           split: option.splits sum.splits exn.splits)

lemma article_records_fst:
  "fst (article_records arts lg) = map (\<lambda>a. fst (make_article_record a [])) arts"
proof (induction arts arbitrary: lg)
  case Nil
  show ?case by simp
next
  case (Cons a arts)
  have "fst (make_article_record a lg) = fst (make_article_record a [])"
    by (simp only: make_article_record_fst)
  then show ?case using Cons.IH
    by (simp add: case_prod_beta)
qed

section \<open>Authors: what \<open>add_author\<close> returns\<close>

lemma Author_new_Inr: "Author_new parts = Inr au \<longleftrightarrow> parts = [firstName au, lastName au]"
  by (cases au) (auto simp: Author_new_def split: list.splits)

lemma add_author_try_split:
  "add_author_try v = Inr (IsAuthor au) \<longleftrightarrow>
     (\<exists>s. v = JStr s \<and> split_on CHR '' '' s = [firstName au, lastName au])"
proof (cases v)
  case (JStr s)
  show ?thesis
  proof (cases "s = []")
    case True
    with JStr show ?thesis by (simp add: add_author_try_def)
  next
    case False
    with JStr have "add_author_try v = Inr (IsAuthor au) \<longleftrightarrow>
        Author_new (split_on CHR '' '' s) = Inr au"
      by (simp add: add_author_try_def py_split_def split: sum.splits)
    with JStr show ?thesis by (simp add: Author_new_Inr)
  qed
qed (simp_all add: add_author_try_def py_split_def)

lemma add_author_try_IsAuthor:
  "add_author_try v = Inr (IsAuthor (Author a b)) \<longleftrightarrow>
     v = JStr (a @ '' '' @ b) \<and> CHR '' '' \<notin> set a \<and> CHR '' '' \<notin> set b"
  by (simp add: add_author_try_split split_on_pair)

lemma add_author_try_NotAuthor:
  "add_author_try v = Inr (NotAuthor w) \<longleftrightarrow> \<not> py_truthy v \<and> w = v"
  by (auto simp: add_author_try_def split: sum.splits)

lemma add_author_examples:
  "fst (add_author (JStr ''Jane Doe'') lg) = IsAuthor (Author ''Jane'' ''Doe'')"
  "fst (add_author (JStr ''Jane'') lg) = NotAuthor JNull"
  "fst (add_author (JStr []) lg) = NotAuthor (JStr [])"
  "fst (add_author JNull lg) = NotAuthor JNull"
  "fst (add_author (JStr ''Jane Middle Doe'') lg) = NotAuthor JNull"
  by (simp_all add: add_author_fst add_author_try_def py_split_def Author_new_def)

text \<open>
  Claim C4, as the code has it. \<open>add_author\<close> returns \<^verbatim>\<open>Author(a, b)\<close> exactly when its
  argument is the string \<^verbatim>\<open>a + " " + b\<close> with no space character in \<^verbatim>\<open>a\<close> or in \<^verbatim>\<open>b\<close>:
  the string is cut at every single space, and either piece may be empty. What it returns
  otherwise is never an author: \<^verbatim>\<open>None\<close> for a truthy argument, and the argument itself
  for a falsy one (\<^verbatim>\<open>None\<close> for \<^verbatim>\<open>None\<close>, the empty string for the empty string). So
  \<^verbatim>\<open>"Jane Doe"\<close> gives \<^verbatim>\<open>Author("Jane", "Doe")\<close>; \<^verbatim>\<open>"Jane"\<close>, \<^verbatim>\<open>None\<close> and
  \<^verbatim>\<open>"Jane Middle Doe"\<close> give \<^verbatim>\<open>None\<close>; the empty string gives the empty string.
\<close>

theorem add_author_single_space:
  "(fst (add_author v lg) = IsAuthor (Author a b) \<longleftrightarrow>
      v = JStr (a @ '' '' @ b) \<and> CHR '' '' \<notin> set a \<and> CHR '' '' \<notin> set b)
   \<and> (fst (add_author v lg) = NotAuthor w \<longrightarrow> w = (if py_truthy v then JNull else v))
   \<and> fst (add_author (JStr ''Jane Doe'') lg) = IsAuthor (Author ''Jane'' ''Doe'')
   \<and> fst (add_author (JStr ''Jane'') lg) = NotAuthor JNull
   \<and> fst (add_author (JStr []) lg) = NotAuthor (JStr [])
   \<and> fst (add_author JNull lg) = NotAuthor JNull
   \<and> fst (add_author (JStr ''Jane Middle Doe'') lg) = NotAuthor JNull"
proof -
  have A: "fst (add_author v lg) = IsAuthor (Author a b) \<longleftrightarrow>
      v = JStr (a @ '' '' @ b) \<and> CHR '' '' \<notin> set a \<and> CHR '' '' \<notin> set b"
    using add_author_try_IsAuthor [of v a b]
    by (auto simp: add_author_fst split: sum.splits)
  have B: "fst (add_author v lg) = NotAuthor w \<longrightarrow> w = (if py_truthy v then JNull else v)"
    using add_author_try_NotAuthor [of v w]
    by (auto simp: add_author_fst add_author_try_def split: sum.splits)
  from A B show ?thesis by (simp only: add_author_examples simp_thms)
qed

theorem add_author_single_space_witness:
  "fst (add_author (JStr ''Jane Doe'') []) = IsAuthor (Author ''Jane'' ''Doe'')
   \<and> JStr ''Jane Doe'' = JStr (''Jane'' @ '' '' @ ''Doe'')
   \<and> fst (add_author (JStr ''Jane'') []) = NotAuthor JNull
   \<and> JNull = (if py_truthy (JStr ''Jane'') then JNull else JStr ''Jane'')"
proof -
  note t = add_author_single_space [of "JStr ''Jane Doe''" "[]" "''Jane''" "''Doe''"]
  have e: "JStr ''Jane Doe'' = JStr (''Jane'' @ '' '' @ ''Doe'')"
    by simp
  then have "JStr ''Jane Doe'' = JStr (''Jane'' @ '' '' @ ''Doe'')
      \<and> CHR '' '' \<notin> set ''Jane'' \<and> CHR '' '' \<notin> set ''Doe''"
    by simp
  with t have a: "fst (add_author (JStr ''Jane Doe'') []) = IsAuthor (Author ''Jane'' ''Doe'')"
    by (rule iffD2 [OF conjunct1])
  note u = add_author_single_space [of "JStr ''Jane''" "[]" _ _ JNull]
  have n: "fst (add_author (JStr ''Jane'') []) = NotAuthor JNull"
    using u by (rule conjunct1 [OF conjunct2 [OF conjunct2 [OF conjunct2]]])
  have "fst (add_author (JStr ''Jane'') []) = NotAuthor JNull \<longrightarrow>
      JNull = (if py_truthy (JStr ''Jane'') then JNull else JStr ''Jane'')"
    using u by (rule conjunct1 [OF conjunct2])
  from this n have c: "JNull = (if py_truthy (JStr ''Jane'') then JNull else JStr ''Jane'')"
    by (rule mp)
  from a e n c show ?thesis by (intro conjI)
qed

text \<open>
  Claim C4 as stated fails: \<^verbatim>\<open>"Jane "\<close> has one whitespace-delimited token, so the
  specification's builder gives no author, and \<open>add_author\<close> returns
  \<^verbatim>\<open>Author("Jane", "")\<close>.
\<close>

theorem add_author_trailing_space_counterexample:
  "fst (add_author (JStr ''Jane '') []) = IsAuthor (Author ''Jane'' [])
   \<and> buildAuthor_spec (JStr ''Jane '') = None"
  by (simp add: add_author_def add_author_try_def py_split_def Author_new_def
        buildAuthor_spec_def ws_tokens_def is_space_def)

text \<open>
  Claim C5, as the code has it. Every \<^verbatim>\<open>Author\<close> that \<open>add_author\<close> returns has exactly
  two components, the two pieces of the argument around its only space character: neither
  component contains a space, and either may be empty.
\<close>

theorem add_author_components:
  "fst (add_author v lg) = IsAuthor au \<Longrightarrow>
     v = JStr (firstName au @ '' '' @ lastName au)
     \<and> CHR '' '' \<notin> set (firstName au) \<and> CHR '' '' \<notin> set (lastName au)"
  using add_author_try_IsAuthor [of v "firstName au" "lastName au"]
  by (cases au) (auto simp: add_author_fst split: sum.splits)

theorem add_author_components_witness:
  "fst (add_author (JStr ''Jane Doe'') []) = IsAuthor (Author ''Jane'' ''Doe'')
   \<and> CHR '' '' \<notin> set (firstName (Author ''Jane'' ''Doe''))
   \<and> CHR '' '' \<notin> set (lastName (Author ''Jane'' ''Doe''))"
proof -
  have h: "fst (add_author (JStr ''Jane Doe'') []) = IsAuthor (Author ''Jane'' ''Doe'')"
    by (simp add: add_author_def add_author_try_def py_split_def Author_new_def)
  from add_author_components [OF h]
  have "CHR '' '' \<notin> set (firstName (Author ''Jane'' ''Doe''))
   \<and> CHR '' '' \<notin> set (lastName (Author ''Jane'' ''Doe''))"
    by (rule conjunct2)
  with h show ?thesis by (rule conjI)
qed

text \<open>
  Claim C5 as stated fails: the string of one space gives an \<^verbatim>\<open>Author\<close> whose two
  components are both empty.
\<close>

theorem add_author_empty_components_counterexample:
  "fst (add_author (JStr '' '') []) = IsAuthor (Author [] [])"
  by (simp add: add_author_def add_author_try_def py_split_def Author_new_def)

section \<open>Sources: what \<open>add_source\<close> returns\<close>

lemma make_source_Inr:
  "make_source raw = Inr (Source i n) \<longleftrightarrow>
     (\<exists>d. raw = JDict d \<and> map_of d ''id'' = Some i \<and> map_of d ''name'' = Some n)"
  by (cases raw) (auto simp: make_source_def split: option.splits)

lemma add_source_examples:
  "fst (add_source (JDict [(''id'', JStr ''cnn''), (''name'', JStr ''CNN'')]) lg) =
     Some (Source (JStr ''cnn'') (JStr ''CNN''))"
  "fst (add_source (JDict [(''id'', JNull), (''name'', JStr ''CNN'')]) lg) =
     Some (Source JNull (JStr ''CNN''))"
  "fst (add_source (JDict [(''name'', JStr ''CNN'')]) lg) = None"
  "fst (add_source (JStr ''cnn'') lg) = None"
  by (simp_all add: add_source_fst make_source_def)

text \<open>
  Claim C6, as the code has it. \<open>add_source\<close> returns \<^verbatim>\<open>Source(id, name)\<close> exactly when
  its argument is a mapping that has the keys \<^verbatim>\<open>id\<close> and \<^verbatim>\<open>name\<close>; the two values are
  stored as they are, whatever their types, and other keys are ignored. For every other
  argument (no \<^verbatim>\<open>id\<close> key, no \<^verbatim>\<open>name\<close> key, not a mapping) it returns \<^verbatim>\<open>None\<close>. It
  never raises: its result is a value in every case. The four examples of the
  specification hold.
\<close>

theorem add_source_keys:
  "(fst (add_source raw lg) = Some (Source i n) \<longleftrightarrow>
      (\<exists>d. raw = JDict d \<and> map_of d ''id'' = Some i \<and> map_of d ''name'' = Some n))
   \<and> fst (add_source (JDict [(''id'', JStr ''cnn''), (''name'', JStr ''CNN'')]) lg) =
       Some (Source (JStr ''cnn'') (JStr ''CNN''))
   \<and> fst (add_source (JDict [(''id'', JNull), (''name'', JStr ''CNN'')]) lg) =
       Some (Source JNull (JStr ''CNN''))
   \<and> fst (add_source (JDict [(''name'', JStr ''CNN'')]) lg) = None
   \<and> fst (add_source (JStr ''cnn'') lg) = None"
proof -
  have "fst (add_source raw lg) = Some (Source i n) \<longleftrightarrow> make_source raw = Inr (Source i n)"
    by (simp add: add_source_fst split: sum.splits)
  then have "fst (add_source raw lg) = Some (Source i n) \<longleftrightarrow>
      (\<exists>d. raw = JDict d \<and> map_of d ''id'' = Some i \<and> map_of d ''name'' = Some n)"
    by (simp only: make_source_Inr)
  then show ?thesis by (simp only: add_source_examples simp_thms)
qed

theorem add_source_keys_witness:
  "fst (add_source
         (JDict [(''id'', JStr ''cnn''), (''url'', JStr ''https://cnn.com''), (''name'', JStr ''CNN'')])
         []) = Some (Source (JStr ''cnn'') (JStr ''CNN''))"
proof -
  let ?d = "[(''id'', JStr ''cnn''), (''url'', JStr ''https://cnn.com''), (''name'', JStr ''CNN'')]"
  have "\<exists>d. JDict ?d = JDict d \<and> map_of d ''id'' = Some (JStr ''cnn'')
          \<and> map_of d ''name'' = Some (JStr ''CNN'')"
    by (rule exI [of _ ?d]) simp
  with add_source_keys [of "JDict ?d" "[]" "JStr ''cnn''" "JStr ''CNN''"]
  show ?thesis by blast
qed

text \<open>
  Claim C6 as stated fails: a mapping whose \<^verbatim>\<open>name\<close> is the number 5 is not of the
  specification's source shape, and \<open>add_source\<close> returns \<^verbatim>\<open>Source("cnn", 5)\<close>.
\<close>

theorem add_source_untyped_name_counterexample:
  "\<not> source_shape_spec (JDict [(''id'', JStr ''cnn''), (''name'', JInt 5)])
   \<and> fst (add_source (JDict [(''id'', JStr ''cnn''), (''name'', JInt 5)]) []) =
       Some (Source (JStr ''cnn'') (JInt 5))"
  by (simp add: source_shape_spec_def is_str_def add_source_def make_source_def)

section \<open>Articles: what \<open>make_article_record\<close> returns\<close>

lemma map_of_rest:
  "map_of (filter (\<lambda>(k, v). k \<noteq> a \<and> k \<noteq> b) d) k =
     (if k \<noteq> a \<and> k \<noteq> b then map_of d k else None)"
  by (induction d) auto

lemma keys_rest:
  "set (map fst (filter (\<lambda>(k, v). k \<noteq> a \<and> k \<noteq> b) d)) = set (map fst d) - {a, b}"
  by (induction d) auto

lemma map_of_Some_key: "(\<exists>v. map_of kw k = Some v) \<longleftrightarrow> k \<in> set (map fst kw)"
  using map_of_eq_None_iff [of kw k] by (cases "map_of kw k") auto

lemma Article_new_Inr:
  "Article_new kw = Inr art \<longleftrightarrow>
     set (map fst kw) \<subseteq> set Article_fields
     \<and> map_of kw ''title'' = Some (title art)
     \<and> map_of kw ''description'' = Some (description art)
     \<and> map_of kw ''url'' = Some (url art)
     \<and> map_of kw ''urlToImage'' = Some (urlToImage art)
     \<and> map_of kw ''publishedAt'' = Some (publishedAt art)
     \<and> map_of kw ''content'' = Some (content art)"
proof -
  have sub: "list_all (\<lambda>(k, v). k \<in> set Article_fields) kw \<longleftrightarrow>
      set (map fst kw) \<subseteq> set Article_fields"
    by (auto simp: list_all_iff)
  show ?thesis
    unfolding Article_new_def sub
    by (cases art) (auto split: option.splits)
qed

lemma Article_new_ok:
  "(\<exists>art. Article_new kw = Inr art) \<longleftrightarrow> set (map fst kw) = set Article_fields"
proof
  assume "\<exists>art. Article_new kw = Inr art"
  then obtain art where a: "Article_new kw = Inr art" ..
  have "\<And>k v. map_of kw k = Some v \<Longrightarrow> k \<in> set (map fst kw)"
    using map_of_Some_key by fast
  with a [unfolded Article_new_Inr] have "set Article_fields \<subseteq> set (map fst kw)"
    unfolding Article_fields_def by (simp del: set_map)
  with a [unfolded Article_new_Inr] show "set (map fst kw) = set Article_fields" by blast
next
  assume e: "set (map fst kw) = set Article_fields"
  have k: "\<And>k. k \<in> set Article_fields \<Longrightarrow> \<exists>v. map_of kw k = Some v"
    using e map_of_Some_key [of kw] by simp
  obtain t where t: "map_of kw ''title'' = Some t"
    using k [of "''title''"] by (auto simp: Article_fields_def)
  obtain d where d: "map_of kw ''description'' = Some d"
    using k [of "''description''"] by (auto simp: Article_fields_def)
  obtain u where u: "map_of kw ''url'' = Some u"
    using k [of "''url''"] by (auto simp: Article_fields_def)
  obtain i where i: "map_of kw ''urlToImage'' = Some i"
    using k [of "''urlToImage''"] by (auto simp: Article_fields_def)
  obtain p where p: "map_of kw ''publishedAt'' = Some p"
    using k [of "''publishedAt''"] by (auto simp: Article_fields_def)
  obtain c where c: "map_of kw ''content'' = Some c"
    using k [of "''content''"] by (auto simp: Article_fields_def)
  have "Article_new kw = Inr (Article t d u i p c)"
    unfolding Article_new_Inr using e t d u i p c by simp
  then show "\<exists>art. Article_new kw = Inr art" ..
qed


lemma match_article_Some:
  "match_article raw = Some (src, au, dat) \<longleftrightarrow>
     (\<exists>d. raw = JDict d \<and> map_of d ''source'' = Some (JDict src) \<and> map_of d ''author'' = Some au
        \<and> dat = filter (\<lambda>(k, v). k \<noteq> ''source'' \<and> k \<noteq> ''author'') d)"
  by (cases raw) (auto simp: match_article_def split: option.splits json.splits)

lemma make_article_record_Some:
  "fst (make_article_record raw lg) = Some (so, ar, art) \<longleftrightarrow>
     (\<exists>src au dat. match_article raw = Some (src, au, dat) \<and> Article_new dat = Inr art
        \<and> so = fst (add_source (JDict src) lg) \<and> ar = fst (add_author au lg))"
proof -
  have s: "\<And>x. fst (add_source x lg) = fst (add_source x [])"
    by (simp only: add_source_fst)
  have a: "\<And>x. fst (add_author x lg) = fst (add_author x [])"
    by (simp only: add_author_fst)
  show ?thesis
    unfolding make_article_record_fst s a
    by (auto split: option.splits sum.splits)
qed

lemma fields_not_source_author:
  "''source'' \<notin> set Article_fields" "''author'' \<notin> set Article_fields"
  by (simp_all add: Article_fields_def)

lemma article_keys:
  assumes "map_of d ''source'' = Some x" and "map_of d ''author'' = Some y"
  shows "set (map fst (filter (\<lambda>(k, v). k \<noteq> ''source'' \<and> k \<noteq> ''author'') d)) = set Article_fields
     \<longleftrightarrow> set (map fst d) = {''source'', ''author''} \<union> set Article_fields"
proof -
  have "''source'' \<in> set (map fst d)" "''author'' \<in> set (map fst d)"
    using assms map_of_Some_key [of d] by blast+
  then show ?thesis
    unfolding keys_rest using fields_not_source_author by blast
qed



lemma make_article_record_shape_only_if:
  assumes "fst (make_article_record raw lg) \<noteq> None"
  shows "\<exists>d src au. raw = JDict d \<and> map_of d ''source'' = Some (JDict src)
         \<and> map_of d ''author'' = Some au
         \<and> set (map fst d) = {''source'', ''author''} \<union> set Article_fields"
proof -
  from assms obtain so ar art where "fst (make_article_record raw lg) = Some (so, ar, art)"
    by (cases "fst (make_article_record raw lg)") auto
  then obtain src au dat where m: "match_article raw = Some (src, au, dat)"
    and n: "Article_new dat = Inr art"
    unfolding make_article_record_Some by blast
  from m obtain d where d: "raw = JDict d" "map_of d ''source'' = Some (JDict src)"
    "map_of d ''author'' = Some au"
    "dat = filter (\<lambda>(k, v). k \<noteq> ''source'' \<and> k \<noteq> ''author'') d"
    unfolding match_article_Some by blast
  from n have "set (map fst dat) = set Article_fields"
    using Article_new_ok [of dat] by blast
  then have "set (map fst d) = {''source'', ''author''} \<union> set Article_fields"
    unfolding d(4) using article_keys [OF d(2) d(3)] by (rule iffD1 [rotated])
  with d(1-3) show ?thesis by (intro exI conjI)
qed

lemma make_article_record_shape_if:
  assumes d: "map_of d ''source'' = Some (JDict src)" "map_of d ''author'' = Some au"
    "set (map fst d) = {''source'', ''author''} \<union> set Article_fields"
  shows "\<exists>art. fst (make_article_record (JDict d) lg) =
        Some (fst (add_source (JDict src) lg), fst (add_author au lg), art)"
proof -
  define dat where "dat = filter (\<lambda>(k, v). k \<noteq> ''source'' \<and> k \<noteq> ''author'') d"
  from d(1,2) have m: "match_article (JDict d) = Some (src, au, dat)"
    by (simp add: match_article_def dat_def)
  from d(3) have "set (map fst dat) = set Article_fields"
    unfolding dat_def using article_keys [OF d(1) d(2)] by (rule iffD2 [rotated])
  then have "\<exists>art. Article_new dat = Inr art"
    by (simp only: Article_new_ok)
  then obtain art where n: "Article_new dat = Inr art" ..
  have "fst (make_article_record (JDict d) lg) =
        Some (fst (add_source (JDict src) lg), fst (add_author au lg), art)"
    unfolding make_article_record_Some using m n by simp
  then show ?thesis ..
qed

lemma make_article_record_fields:
  assumes "fst (make_article_record raw lg) = Some (so, ar, art)"
  shows "\<exists>d src au. raw = JDict d \<and> map_of d ''source'' = Some (JDict src)
         \<and> map_of d ''author'' = Some au
         \<and> so = fst (add_source (JDict src) lg) \<and> ar = fst (add_author au lg)
         \<and> map_of d ''title'' = Some (title art)
         \<and> map_of d ''description'' = Some (description art)
         \<and> map_of d ''url'' = Some (url art)
         \<and> map_of d ''urlToImage'' = Some (urlToImage art)
         \<and> map_of d ''content'' = Some (content art)"
proof -
  from assms obtain src au dat where m: "match_article raw = Some (src, au, dat)"
    and n: "Article_new dat = Inr art"
    and r: "so = fst (add_source (JDict src) lg)" "ar = fst (add_author au lg)"
    unfolding make_article_record_Some by blast
  from m obtain d where d: "raw = JDict d" "map_of d ''source'' = Some (JDict src)"
    "map_of d ''author'' = Some au"
    and dat: "dat = filter (\<lambda>(k, v). k \<noteq> ''source'' \<and> k \<noteq> ''author'') d"
    unfolding match_article_Some by blast
  from n [unfolded Article_new_Inr dat map_of_rest]
  have f: "map_of d ''title'' = Some (title art)"
    "map_of d ''description'' = Some (description art)"
    "map_of d ''url'' = Some (url art)"
    "map_of d ''urlToImage'' = Some (urlToImage art)"
    "map_of d ''content'' = Some (content art)"
    by simp_all
  from d r f show ?thesis by (intro exI conjI)
qed

text \<open>
  Claim C3, as the code has it. \<open>make_article_record\<close> returns a record exactly when the
  fragment is a mapping whose \<^verbatim>\<open>source\<close> is a mapping, that has a key \<^verbatim>\<open>author\<close>, and
  whose keys are \<^verbatim>\<open>source\<close>, \<^verbatim>\<open>author\<close> and exactly the six \<^verbatim>\<open>Article\<close> field names.
  The record then holds the results of \<open>add_source\<close> and \<open>add_author\<close> and an
  \<^verbatim>\<open>Article\<close> whose \<^verbatim>\<open>title\<close>, \<^verbatim>\<open>description\<close>, \<^verbatim>\<open>url\<close>, \<^verbatim>\<open>urlToImage\<close> and \<^verbatim>\<open>content\<close>
  are the fragment's values, stored as they are: the types of the values are not checked.
  A fragment that lacks one of the six fields (for example \<^verbatim>\<open>content\<close>) gives no record at
  all, whatever its \<^verbatim>\<open>source\<close> and \<^verbatim>\<open>author\<close>.
\<close>

theorem make_article_record_keys:
  "(fst (make_article_record raw lg) \<noteq> None \<longleftrightarrow>
      (\<exists>d src au. raw = JDict d \<and> map_of d ''source'' = Some (JDict src)
         \<and> map_of d ''author'' = Some au
         \<and> set (map fst d) = {''source'', ''author''} \<union> set Article_fields))
   \<and> (fst (make_article_record raw lg) = Some (so, ar, art) \<longrightarrow>
      (\<exists>d src au. raw = JDict d \<and> map_of d ''source'' = Some (JDict src)
         \<and> map_of d ''author'' = Some au
         \<and> so = fst (add_source (JDict src) lg) \<and> ar = fst (add_author au lg)
         \<and> map_of d ''title'' = Some (title art)
         \<and> map_of d ''description'' = Some (description art)
         \<and> map_of d ''url'' = Some (url art)
         \<and> map_of d ''urlToImage'' = Some (urlToImage art)
         \<and> map_of d ''content'' = Some (content art)))
   \<and> (raw = JDict d \<and> f \<in> set Article_fields \<and> f \<notin> set (map fst d) \<longrightarrow>
         fst (make_article_record raw lg) = None)"
proof (intro conjI)
  show "fst (make_article_record raw lg) \<noteq> None \<longleftrightarrow>
      (\<exists>d src au. raw = JDict d \<and> map_of d ''source'' = Some (JDict src)
         \<and> map_of d ''author'' = Some au
         \<and> set (map fst d) = {''source'', ''author''} \<union> set Article_fields)"
  proof
    assume "fst (make_article_record raw lg) \<noteq> None"
    then show "\<exists>d src au. raw = JDict d \<and> map_of d ''source'' = Some (JDict src)
         \<and> map_of d ''author'' = Some au
         \<and> set (map fst d) = {''source'', ''author''} \<union> set Article_fields"
      by (rule make_article_record_shape_only_if)
  next
    assume "\<exists>d src au. raw = JDict d \<and> map_of d ''source'' = Some (JDict src)
         \<and> map_of d ''author'' = Some au
         \<and> set (map fst d) = {''source'', ''author''} \<union> set Article_fields"
    then obtain d src au where r: "raw = JDict d"
      and d: "map_of d ''source'' = Some (JDict src)" "map_of d ''author'' = Some au"
        "set (map fst d) = {''source'', ''author''} \<union> set Article_fields"
      by (elim exE conjE)
    from make_article_record_shape_if [OF d, of lg] r
    show "fst (make_article_record raw lg) \<noteq> None" by auto
  qed
next
  show "fst (make_article_record raw lg) = Some (so, ar, art) \<longrightarrow>
      (\<exists>d src au. raw = JDict d \<and> map_of d ''source'' = Some (JDict src)
         \<and> map_of d ''author'' = Some au
         \<and> so = fst (add_source (JDict src) lg) \<and> ar = fst (add_author au lg)
         \<and> map_of d ''title'' = Some (title art)
         \<and> map_of d ''description'' = Some (description art)
         \<and> map_of d ''url'' = Some (url art)
         \<and> map_of d ''urlToImage'' = Some (urlToImage art)
         \<and> map_of d ''content'' = Some (content art))"
    by (rule impI) (rule make_article_record_fields)
next
  show "raw = JDict d \<and> f \<in> set Article_fields \<and> f \<notin> set (map fst d) \<longrightarrow>
         fst (make_article_record raw lg) = None"
  proof (intro impI, elim conjE)
    assume r: "raw = JDict d" and f: "f \<in> set Article_fields" "f \<notin> set (map fst d)"
    show "fst (make_article_record raw lg) = None"
    proof (rule ccontr)
      assume "fst (make_article_record raw lg) \<noteq> None"
      from make_article_record_shape_only_if [OF this] r
      have "set (map fst d) = {''source'', ''author''} \<union> set Article_fields"
        by (elim exE conjE) (simp only: json.inject)
      with f show False by (simp only: Un_iff simp_thms)
    qed
  qed
qed

theorem make_article_record_keys_witness:
  "fst (make_article_record
         (JDict [(''source'', JDict [(''id'', JNull), (''name'', JStr ''CNN'')]),
            (''author'', JStr ''Jane Doe''), (''title'', JStr ''T''), (''description'', JStr ''D''),
            (''url'', JStr ''U''), (''urlToImage'', JStr ''I''),
            (''publishedAt'', JStr ''2024-01-01T00:00:00Z''), (''content'', JStr ''C'')]) []) \<noteq> None
   \<and> ''content'' \<in> set Article_fields
   \<and> fst (make_article_record
         (JDict [(''source'', JDict [(''id'', JNull), (''name'', JStr ''CNN'')]),
            (''author'', JStr ''Jane Doe''), (''title'', JStr ''T''), (''description'', JStr ''D''),
            (''url'', JStr ''U''), (''urlToImage'', JStr ''I''),
            (''publishedAt'', JStr ''2024-01-01T00:00:00Z'')]) []) = None"
proof -
  let ?d = "[(''source'', JDict [(''id'', JNull), (''name'', JStr ''CNN'')]),
            (''author'', JStr ''Jane Doe''), (''title'', JStr ''T''), (''description'', JStr ''D''),
            (''url'', JStr ''U''), (''urlToImage'', JStr ''I''),
            (''publishedAt'', JStr ''2024-01-01T00:00:00Z''), (''content'', JStr ''C'')]"
  let ?m = "[(''source'', JDict [(''id'', JNull), (''name'', JStr ''CNN'')]),
            (''author'', JStr ''Jane Doe''), (''title'', JStr ''T''), (''description'', JStr ''D''),
            (''url'', JStr ''U''), (''urlToImage'', JStr ''I''),
            (''publishedAt'', JStr ''2024-01-01T00:00:00Z'')]"
  have "JDict ?d = JDict ?d \<and> map_of ?d ''source'' = Some (JDict [(''id'', JNull), (''name'', JStr ''CNN'')])
      \<and> map_of ?d ''author'' = Some (JStr ''Jane Doe'')
      \<and> set (map fst ?d) = {''source'', ''author''} \<union> set Article_fields"
    by (simp add: Article_fields_def insert_commute)
  then have "\<exists>d src au. JDict ?d = JDict d \<and> map_of d ''source'' = Some (JDict src)
         \<and> map_of d ''author'' = Some au
         \<and> set (map fst d) = {''source'', ''author''} \<union> set Article_fields"
    by (intro exI)
  moreover have "fst (make_article_record (JDict ?d) []) \<noteq> None \<longleftrightarrow>
      (\<exists>d src au. JDict ?d = JDict d \<and> map_of d ''source'' = Some (JDict src)
         \<and> map_of d ''author'' = Some au
         \<and> set (map fst d) = {''source'', ''author''} \<union> set Article_fields)"
    using make_article_record_keys [of "JDict ?d" "[]"] by (rule conjunct1)
  ultimately have g: "fst (make_article_record (JDict ?d) []) \<noteq> None"
    by (rule iffD2 [rotated])
  have c: "''content'' \<in> set Article_fields"
    by (simp add: Article_fields_def)
  have "JDict ?m = JDict ?m \<and> ''content'' \<in> set Article_fields \<and> ''content'' \<notin> set (map fst ?m)"
    by (simp add: Article_fields_def)
  moreover have "JDict ?m = JDict ?m \<and> ''content'' \<in> set Article_fields
      \<and> ''content'' \<notin> set (map fst ?m) \<longrightarrow> fst (make_article_record (JDict ?m) []) = None"
    using make_article_record_keys [where raw = "JDict ?m" and lg = "[]" and d = ?m
        and f = "''content''"]
    by (rule conjunct2 [OF conjunct2])
  ultimately have n: "fst (make_article_record (JDict ?m) []) = None"
    by (rule mp [rotated])
  from g c n show ?thesis by (intro conjI)
qed

text \<open>
  Claim C3 as stated fails: a fragment whose \<^verbatim>\<open>title\<close> is the number 5 has a mistyped
  field, and it is not dropped; its record holds the number as the title.
\<close>

theorem make_article_record_untyped_title_counterexample:
  "\<not> is_str (JInt 5)
   \<and> fst (make_article_record
         (JDict [(''source'', JDict [(''id'', JNull), (''name'', JStr ''CNN'')]),
            (''author'', JStr ''Jane Doe''), (''title'', JInt 5), (''description'', JStr ''D''),
            (''url'', JStr ''U''), (''urlToImage'', JStr ''I''),
            (''publishedAt'', JStr ''2024-01-01T00:00:00Z''), (''content'', JStr ''C'')]) []) =
       Some (Some (Source JNull (JStr ''CNN'')), IsAuthor (Author ''Jane'' ''Doe''),
             Article (JInt 5) (JStr ''D'') (JStr ''U'') (JStr ''I'')
               (JStr ''2024-01-01T00:00:00Z'') (JStr ''C''))"
  by (simp add: is_str_def make_article_record_def match_article_def add_source_def
        make_source_def add_author_def add_author_try_def py_split_def Author_new_def
        Article_new_def Article_fields_def)

section \<open>The response: which branch \<open>match_response\<close> takes\<close>

lemma match_ok_Some:
  "match_ok r = Some (tr, arts) \<longleftrightarrow>
     (\<exists>d. r = JDict d \<and> map_of d ''status'' = Some (JStr ''ok'')
        \<and> map_of d ''totalResults'' = Some tr \<and> map_of d ''articles'' = Some (JList arts))"
  by (cases r) (auto simp: match_ok_def split: option.splits json.splits)

lemma match_ok_shape: "match_ok r \<noteq> None \<longleftrightarrow> success_shape r"
  by (cases r)
     (auto simp: match_ok_def success_shape_def is_list_def map_of_Some_key [symmetric]
           simp del: set_map split: option.splits json.splits)

lemma match_ok_None: "match_ok r = None \<longleftrightarrow> \<not> success_shape r"
  using match_ok_shape [of r] by blast

lemma match_error_Some:
  "match_error r = Some (c, m) \<longleftrightarrow>
     (\<exists>d. r = JDict d \<and> map_of d ''status'' = Some (JStr ''error'')
        \<and> map_of d ''code'' = Some c \<and> map_of d ''message'' = Some m)"
  by (cases r) (auto simp: match_error_def split: option.splits)

lemma match_error_shape: "match_error r \<noteq> None \<longleftrightarrow> reported_error_shape r"
  by (cases r)
     (auto simp: match_error_def reported_error_shape_def map_of_Some_key [symmetric]
           simp del: set_map split: option.splits)

lemma Articles_init_fst:
  "fst (Articles_init arts lg) = Articles (map (\<lambda>a. fst (make_article_record a [])) arts)"
  by (simp add: Articles_init_def case_prod_beta article_records_fst)

lemma match_response_fst:
  "fst (match_response r lg) =
     (case match_ok r of
        Some (tr, arts) \<Rightarrow>
          Inr (MetaData tr, Articles (map (\<lambda>a. fst (make_article_record a [])) arts))
      | None \<Rightarrow>
          (case match_error r of
             Some (c, m) \<Rightarrow>
               Inl (ResponseError
                     (''Error Code: '' @ py_str c @ [CHR 0x0A] @ ''Message: '' @ py_str m))
           | None \<Rightarrow> Inl (ResponseError (''Not yet patterned response: '' @ py_str r))))"
  by (simp add: match_response_def case_prod_beta Articles_init_fst split: option.splits)

lemma shapes_exclusive: "\<not> (success_shape r \<and> reported_error_shape r)"
  by (cases r) (auto simp: success_shape_def reported_error_shape_def)


text \<open>
  Claim C2, as the code has it. \<open>match_response\<close> puts every input into exactly one of
  three branches, tried in order. A mapping whose \<^verbatim>\<open>status\<close> is \<^verbatim>\<open>"ok"\<close>, that has a key
  \<^verbatim>\<open>totalResults\<close> (holding any value) and whose \<^verbatim>\<open>articles\<close> is a list returns a pair of
  metadata and articles and does not raise. Every other input raises \<^verbatim>\<open>ResponseError\<close>:
  a mapping whose \<^verbatim>\<open>status\<close> is \<^verbatim>\<open>"error"\<close> with the keys \<^verbatim>\<open>code\<close> and \<^verbatim>\<open>message\<close>, which is
  never of the first shape, and anything else. An input whose \<^verbatim>\<open>articles\<close> is not a list
  does not take the first branch; the type of \<^verbatim>\<open>totalResults\<close> is not looked at.
\<close>

theorem match_response_branches:
  "(success_shape r \<longrightarrow> (\<exists>m a. fst (match_response r lg) = Inr (m, a)))
   \<and> (\<not> success_shape r \<longrightarrow> (\<exists>msg. fst (match_response r lg) = Inl (ResponseError msg)))
   \<and> (reported_error_shape r \<longrightarrow> (\<exists>msg. fst (match_response r lg) = Inl (ResponseError msg)))
   \<and> \<not> (success_shape r \<and> reported_error_shape r)
   \<and> (r = JDict d \<and> map_of d ''articles'' = Some a \<and> \<not> is_list a \<longrightarrow>
        (\<exists>msg. fst (match_response r lg) = Inl (ResponseError msg)))"
proof -
  have ok: "success_shape r \<longrightarrow> (\<exists>m a. fst (match_response r lg) = Inr (m, a))"
  proof
    assume "success_shape r"
    then have "match_ok r \<noteq> None"
      by (rule iffD2 [OF match_ok_shape])
    then obtain x where "match_ok r = Some x"
      by (cases "match_ok r") simp_all
    then obtain tr arts where "match_ok r = Some (tr, arts)"
      by (cases x) simp
    then show "\<exists>m a. fst (match_response r lg) = Inr (m, a)"
      by (simp add: match_response_fst)
  qed
  have no: "\<not> success_shape r \<longrightarrow> (\<exists>msg. fst (match_response r lg) = Inl (ResponseError msg))"
  proof
    assume "\<not> success_shape r"
    then have "match_ok r = None"
      by (rule iffD2 [OF match_ok_None])
    then show "\<exists>msg. fst (match_response r lg) = Inl (ResponseError msg)"
      by (simp add: match_response_fst split: option.splits)
  qed
  have ex: "\<not> (success_shape r \<and> reported_error_shape r)"
    by (rule shapes_exclusive)
  have er: "reported_error_shape r \<longrightarrow> (\<exists>msg. fst (match_response r lg) = Inl (ResponseError msg))"
    using no ex by blast
  have nl: "r = JDict d \<and> map_of d ''articles'' = Some a \<and> \<not> is_list a \<longrightarrow> \<not> success_shape r"
    by (auto simp: success_shape_def)
  from ok no er ex nl show ?thesis by blast
qed

theorem match_response_branches_witness:
  "success_shape (JDict [(''status'', JStr ''ok''), (''totalResults'', JInt 37), (''articles'', JList [])])
   \<and> (\<exists>m a. fst (match_response
        (JDict [(''status'', JStr ''ok''), (''totalResults'', JInt 37), (''articles'', JList [])]) [])
        = Inr (m, a))
   \<and> reported_error_shape (JDict [(''status'', JStr ''error''), (''code'', JInt 426),
        (''message'', JStr ''API key invalid'')])
   \<and> (\<exists>msg. fst (match_response
        (JDict [(''status'', JStr ''error''), (''code'', JInt 426),
          (''message'', JStr ''API key invalid'')]) []) = Inl (ResponseError msg))
   \<and> \<not> is_list (JStr ''none'')
   \<and> (\<exists>msg. fst (match_response
        (JDict [(''status'', JStr ''ok''), (''totalResults'', JInt 37), (''articles'', JStr ''none'')])
        []) = Inl (ResponseError msg))
   \<and> \<not> success_shape (JList [JInt 1])
   \<and> (\<exists>msg. fst (match_response (JList [JInt 1]) []) = Inl (ResponseError msg))"
proof -
  let ?ok = "[(''status'', JStr ''ok''), (''totalResults'', JInt 37), (''articles'', JList [])]"
  let ?er = "[(''status'', JStr ''error''), (''code'', JInt 426),
        (''message'', JStr ''API key invalid'')]"
  let ?nl = "[(''status'', JStr ''ok''), (''totalResults'', JInt 37), (''articles'', JStr ''none'')]"
  have s: "success_shape (JDict ?ok)"
    by (simp add: success_shape_def is_list_def)
  have "success_shape (JDict ?ok) \<longrightarrow> (\<exists>m a. fst (match_response (JDict ?ok) []) = Inr (m, a))"
    using match_response_branches [of "JDict ?ok" "[]"] by (rule conjunct1)
  from this s have s': "\<exists>m a. fst (match_response (JDict ?ok) []) = Inr (m, a)"
    by (rule mp)
  have e: "reported_error_shape (JDict ?er)"
    by (simp add: reported_error_shape_def)
  have "reported_error_shape (JDict ?er) \<longrightarrow>
      (\<exists>msg. fst (match_response (JDict ?er) []) = Inl (ResponseError msg))"
    using match_response_branches [of "JDict ?er" "[]"]
    by (rule conjunct1 [OF conjunct2 [OF conjunct2]])
  from this e have e': "\<exists>msg. fst (match_response (JDict ?er) []) = Inl (ResponseError msg)"
    by (rule mp)
  have n: "\<not> is_list (JStr ''none'')"
    by (simp add: is_list_def)
  then have n0: "JDict ?nl = JDict ?nl \<and> map_of ?nl ''articles'' = Some (JStr ''none'')
      \<and> \<not> is_list (JStr ''none'')"
    by simp
  have "JDict ?nl = JDict ?nl \<and> map_of ?nl ''articles'' = Some (JStr ''none'')
      \<and> \<not> is_list (JStr ''none'') \<longrightarrow>
      (\<exists>msg. fst (match_response (JDict ?nl) []) = Inl (ResponseError msg))"
    using match_response_branches [where r = "JDict ?nl" and lg = "[]" and d = ?nl
        and a = "JStr ''none''"]
    by (rule conjunct2 [OF conjunct2 [OF conjunct2 [OF conjunct2]]])
  from this n0 have n': "\<exists>msg. fst (match_response (JDict ?nl) []) = Inl (ResponseError msg)"
    by (rule mp)
  have u: "\<not> success_shape (JList [JInt 1])"
    by (simp add: success_shape_def)
  have "\<not> success_shape (JList [JInt 1]) \<longrightarrow>
      (\<exists>msg. fst (match_response (JList [JInt 1]) []) = Inl (ResponseError msg))"
    using match_response_branches [of "JList [JInt 1]" "[]"]
    by (rule conjunct1 [OF conjunct2])
  from this u have u': "\<exists>msg. fst (match_response (JList [JInt 1]) []) = Inl (ResponseError msg)"
    by (rule mp)
  from s s' e e' n n' u u' show ?thesis by (intro conjI)
qed

text \<open>
  Claim C2 as stated fails: a document whose \<^verbatim>\<open>totalResults\<close> is the string
  \<^verbatim>\<open>"many"\<close> is not of the specification's success shape, and it takes the first branch:
  the result holds the string as the total.
\<close>

theorem match_response_untyped_total_counterexample:
  "\<not> success_shape_spec
        (JDict [(''status'', JStr ''ok''), (''totalResults'', JStr ''many''), (''articles'', JList [])])
   \<and> fst (match_response
        (JDict [(''status'', JStr ''ok''), (''totalResults'', JStr ''many''), (''articles'', JList [])])
        []) = Inr (MetaData (JStr ''many''), Articles [])"
  by (simp add: success_shape_spec_def is_int_def match_response_def match_ok_def
        Articles_init_def)


section \<open>The response: a reported error\<close>

lemma ApiResponse_init_fst_Inl:
  "fst (match_response r lg) = Inl e \<Longrightarrow> fst (ApiResponse_init r lg) = Inl e"
  by (cases "match_response r lg") (simp add: ApiResponse_init_def)

lemma match_response_error_snd:
  "match_ok r = None \<Longrightarrow> snd (match_response r lg) = lg"
  by (simp add: match_response_def split: option.splits)

lemma ApiResponse_init_snd: "snd (ApiResponse_init r lg) = snd (match_response r lg)"
  by (cases "match_response r lg") (auto simp: ApiResponse_init_def split: sum.splits)

text \<open>
  Claim C7. For a mapping whose \<^verbatim>\<open>status\<close> is \<^verbatim>\<open>"error"\<close> and that has the keys \<^verbatim>\<open>code\<close> and
  \<^verbatim>\<open>message\<close>, constructing the response raises \<^verbatim>\<open>ResponseError\<close>; its message is
  \<^verbatim>\<open>Error Code: \<close>, the code as \<^verbatim>\<open>%s\<close> formats it, a newline, \<^verbatim>\<open>Message: \<close> and the message
  as \<^verbatim>\<open>%s\<close> formats it. \<^verbatim>\<open>%s\<close> formats a string as itself and an integer as its decimal
  digits, so both appear verbatim. The caller gets the exception and no response object,
  and nothing was logged on the way.
\<close>

theorem reported_error_raises:
  assumes "map_of d ''status'' = Some (JStr ''error'')"
    and "map_of d ''code'' = Some code"
    and "map_of d ''message'' = Some message"
  shows "ApiResponse_init (JDict d) lg =
           (Inl (ResponseError
                  (''Error Code: '' @ py_str code @ [CHR 0x0A] @ ''Message: '' @ py_str message)),
            lg)
         \<and> py_str (JStr s) = s \<and> py_str (JInt n) = show_int n"
proof -
  have ok: "match_ok (JDict d) = None"
    using assms(1) by (simp add: match_ok_def split: option.splits json.splits)
  have er: "match_error (JDict d) = Some (code, message)"
    using assms by (simp add: match_error_def)
  have "fst (match_response (JDict d) lg) =
      Inl (ResponseError
            (''Error Code: '' @ py_str code @ [CHR 0x0A] @ ''Message: '' @ py_str message))"
    by (simp add: match_response_fst ok er)
  then have "fst (ApiResponse_init (JDict d) lg) =
      Inl (ResponseError
            (''Error Code: '' @ py_str code @ [CHR 0x0A] @ ''Message: '' @ py_str message))"
    by (rule ApiResponse_init_fst_Inl)
  moreover have "snd (ApiResponse_init (JDict d) lg) = lg"
    by (simp only: ApiResponse_init_snd match_response_error_snd [OF ok])
  ultimately have "ApiResponse_init (JDict d) lg =
           (Inl (ResponseError
                  (''Error Code: '' @ py_str code @ [CHR 0x0A] @ ''Message: '' @ py_str message)),
            lg)"
    by (simp add: prod_eq_iff)
  moreover have "py_str (JStr s) = s" "py_str (JInt n) = show_int n"
    by (simp_all add: py_str_def)
  ultimately show ?thesis by (intro conjI)
qed

lemma show_int_426: "show_int 426 = ''426''"
  by (simp add: show_int_def show_nat.simps digit_char_def)

theorem reported_error_raises_witness:
  "ApiResponse_init
     (JDict [(''status'', JStr ''error''), (''code'', JInt 426),
             (''message'', JStr ''API key invalid'')]) [] =
     (Inl (ResponseError (''Error Code: 426'' @ [CHR 0x0A] @ ''Message: API key invalid'')), [])"
proof -
  let ?d = "[(''status'', JStr ''error''), (''code'', JInt 426),
             (''message'', JStr ''API key invalid'')]"
  have a: "map_of ?d ''status'' = Some (JStr ''error'')" by simp
  have b: "map_of ?d ''code'' = Some (JInt 426)" by simp
  have c: "map_of ?d ''message'' = Some (JStr ''API key invalid'')" by simp
  note r = reported_error_raises [OF a b c, of "[]"]
  have e: "ApiResponse_init (JDict ?d) [] =
      (Inl (ResponseError (''Error Code: '' @ py_str (JInt 426) @ [CHR 0x0A] @ ''Message: ''
              @ py_str (JStr ''API key invalid''))), [])"
    using r by (rule conjunct1)
  have s: "py_str (JStr ''API key invalid'') = ''API key invalid''"
    using r [of "''API key invalid''"] by (rule conjunct1 [OF conjunct2])
  have i: "py_str (JInt 426) = show_int 426"
    using r [of _ 426] by (rule conjunct2 [OF conjunct2])
  show ?thesis
    unfolding e s i show_int_426 by simp
qed


section \<open>The response: keys the patterns do not name\<close>

lemma map_le_lookup:
  "map_le (map_of d) (map_of d') \<Longrightarrow> map_of d k = Some v \<Longrightarrow> map_of d' k = Some v"
  by (auto simp: map_le_def dom_def)

lemma success_shape_keys:
  "success_shape r \<longleftrightarrow>
     (\<exists>d tr arts. r = JDict d \<and> map_of d ''status'' = Some (JStr ''ok'')
        \<and> map_of d ''totalResults'' = Some tr \<and> map_of d ''articles'' = Some (JList arts))"
proof -
  have "success_shape r \<longleftrightarrow> (\<exists>tr arts. match_ok r = Some (tr, arts))"
    using match_ok_shape [of r] by auto
  then show ?thesis
    unfolding match_ok_Some by blast
qed

lemma reported_error_shape_keys:
  "reported_error_shape r \<longleftrightarrow>
     (\<exists>d c m. r = JDict d \<and> map_of d ''status'' = Some (JStr ''error'')
        \<and> map_of d ''code'' = Some c \<and> map_of d ''message'' = Some m)"
proof -
  have "reported_error_shape r \<longleftrightarrow> (\<exists>c m. match_error r = Some (c, m))"
    using match_error_shape [of r] by auto
  then show ?thesis
    unfolding match_error_Some by blast
qed

lemma extra_keys_success:
  assumes le: "map_le (map_of d) (map_of d')"
    and k: "map_of d ''status'' = Some (JStr ''ok'')"
      "map_of d ''totalResults'' = Some tr" "map_of d ''articles'' = Some (JList arts)"
  shows "success_shape (JDict d')"
    and "fst (match_response (JDict d') lg) =
           Inr (MetaData tr, Articles (map (\<lambda>a. fst (make_article_record a lg')) arts))"
    and "fst (match_response (JDict d') lg) = fst (match_response (JDict d) lg)"
proof -
  have k': "map_of d' ''status'' = Some (JStr ''ok'')"
    "map_of d' ''totalResults'' = Some tr" "map_of d' ''articles'' = Some (JList arts)"
    using k by (simp_all only: map_le_lookup [OF le])
  have m: "match_ok (JDict d) = Some (tr, arts)"
    unfolding match_ok_Some using k by simp
  have m': "match_ok (JDict d') = Some (tr, arts)"
    unfolding match_ok_Some using k' by simp
  have i: "\<And>a. fst (make_article_record a lg') = fst (make_article_record a [])"
    by (simp only: make_article_record_fst)
  show "success_shape (JDict d')"
    unfolding success_shape_keys using k' by simp
  show "fst (match_response (JDict d') lg) =
           Inr (MetaData tr, Articles (map (\<lambda>a. fst (make_article_record a lg')) arts))"
    unfolding i by (simp add: match_response_fst m')
  show "fst (match_response (JDict d') lg) = fst (match_response (JDict d) lg)"
    by (simp add: match_response_fst m m')
qed

lemma extra_keys_error:
  assumes le: "map_le (map_of d) (map_of d')"
    and k: "map_of d ''status'' = Some (JStr ''error'')"
      "map_of d ''code'' = Some c" "map_of d ''message'' = Some m"
  shows "reported_error_shape (JDict d')"
    and "fst (match_response (JDict d') lg) =
           Inl (ResponseError
                 (''Error Code: '' @ py_str c @ [CHR 0x0A] @ ''Message: '' @ py_str m))"
    and "fst (match_response (JDict d') lg) = fst (match_response (JDict d) lg)"
proof -
  have k': "map_of d' ''status'' = Some (JStr ''error'')"
    "map_of d' ''code'' = Some c" "map_of d' ''message'' = Some m"
    using k by (simp_all only: map_le_lookup [OF le])
  have e: "match_error (JDict d) = Some (c, m)"
    unfolding match_error_Some using k by simp
  have e': "match_error (JDict d') = Some (c, m)"
    unfolding match_error_Some using k' by simp
  have o: "match_ok (JDict d) = None"
    using k(1) by (simp add: match_ok_def split: option.splits json.splits)
  have o': "match_ok (JDict d') = None"
    using k'(1) by (simp add: match_ok_def split: option.splits json.splits)
  show "reported_error_shape (JDict d')"
    unfolding reported_error_shape_keys using k' by simp
  show "fst (match_response (JDict d') lg) =
           Inl (ResponseError
                 (''Error Code: '' @ py_str c @ [CHR 0x0A] @ ''Message: '' @ py_str m))"
    by (simp add: match_response_fst o' e')
  show "fst (match_response (JDict d') lg) = fst (match_response (JDict d) lg)"
    by (simp add: match_response_fst o o' e e')
qed

text \<open>
  Claim C10. Let a document have every item of another document and possibly more keys.
  If the smaller one has \<^verbatim>\<open>status\<close> \<^verbatim>\<open>"ok"\<close>, a key \<^verbatim>\<open>totalResults\<close> and a list \<^verbatim>\<open>articles\<close>,
  the larger one takes the success branch: \<open>match_response\<close> returns the metadata made
  of that \<^verbatim>\<open>totalResults\<close> and the records of those articles, the same result as for the
  smaller one. If the smaller one has \<^verbatim>\<open>status\<close> \<^verbatim>\<open>"error"\<close> and the keys \<^verbatim>\<open>code\<close> and
  \<^verbatim>\<open>message\<close>, the larger one takes the reported-error branch: \<open>match_response\<close> raises
  \<^verbatim>\<open>ResponseError\<close> with the message made of that code and that message, again as for
  the smaller one. Additional top-level keys never move an input into the unrecognised
  branch.
\<close>

theorem extra_keys_keep_branch:
  assumes "map_le (map_of d) (map_of d')"
  shows "(map_of d ''status'' = Some (JStr ''ok'') \<and> map_of d ''totalResults'' = Some tr
            \<and> map_of d ''articles'' = Some (JList arts) \<longrightarrow>
            success_shape (JDict d')
            \<and> fst (match_response (JDict d') lg) =
                Inr (MetaData tr, Articles (map (\<lambda>a. fst (make_article_record a lg')) arts))
            \<and> fst (match_response (JDict d') lg) = fst (match_response (JDict d) lg))
         \<and> (map_of d ''status'' = Some (JStr ''error'') \<and> map_of d ''code'' = Some c
            \<and> map_of d ''message'' = Some m \<longrightarrow>
            reported_error_shape (JDict d')
            \<and> fst (match_response (JDict d') lg) =
                Inl (ResponseError
                      (''Error Code: '' @ py_str c @ [CHR 0x0A] @ ''Message: '' @ py_str m))
            \<and> fst (match_response (JDict d') lg) = fst (match_response (JDict d) lg))"
proof (intro conjI impI)
  assume "map_of d ''status'' = Some (JStr ''ok'') \<and> map_of d ''totalResults'' = Some tr
            \<and> map_of d ''articles'' = Some (JList arts)"
  then have k: "map_of d ''status'' = Some (JStr ''ok'')"
    "map_of d ''totalResults'' = Some tr" "map_of d ''articles'' = Some (JList arts)"
    by simp_all
  show "success_shape (JDict d')"
    by (rule extra_keys_success(1) [OF assms k])
  show "fst (match_response (JDict d') lg) =
          Inr (MetaData tr, Articles (map (\<lambda>a. fst (make_article_record a lg')) arts))"
    by (rule extra_keys_success(2) [OF assms k])
  show "fst (match_response (JDict d') lg) = fst (match_response (JDict d) lg)"
    by (rule extra_keys_success(3) [OF assms k])
next
  assume "map_of d ''status'' = Some (JStr ''error'') \<and> map_of d ''code'' = Some c
            \<and> map_of d ''message'' = Some m"
  then have k: "map_of d ''status'' = Some (JStr ''error'')"
    "map_of d ''code'' = Some c" "map_of d ''message'' = Some m"
    by simp_all
  show "reported_error_shape (JDict d')"
    by (rule extra_keys_error(1) [OF assms k])
  show "fst (match_response (JDict d') lg) =
          Inl (ResponseError
                (''Error Code: '' @ py_str c @ [CHR 0x0A] @ ''Message: '' @ py_str m))"
    by (rule extra_keys_error(2) [OF assms k])
  show "fst (match_response (JDict d') lg) = fst (match_response (JDict d) lg)"
    by (rule extra_keys_error(3) [OF assms k])
qed

theorem extra_keys_keep_branch_witness:
  "fst (match_response (JDict [(''apiVersion'', JInt 2), (''status'', JStr ''ok''),
         (''totalResults'', JInt 1), (''articles'', JList [JStr ''x'']), (''page'', JInt 1)]) []) =
     Inr (MetaData (JInt 1), Articles [None])
   \<and> fst (match_response (JDict [(''requestId'', JInt 7), (''status'', JStr ''error''),
         (''code'', JStr ''apiKeyInvalid''), (''message'', JStr ''bad key'')]) []) =
     Inl (ResponseError (''Error Code: apiKeyInvalid'' @ [CHR 0x0A] @ ''Message: bad key''))"
proof -
  let ?d = "[(''status'', JStr ''ok''), (''totalResults'', JInt 1),
         (''articles'', JList [JStr ''x''])]"
  let ?d' = "[(''apiVersion'', JInt 2), (''status'', JStr ''ok''),
         (''totalResults'', JInt 1), (''articles'', JList [JStr ''x'']), (''page'', JInt 1)]"
  let ?e = "[(''status'', JStr ''error''), (''code'', JStr ''apiKeyInvalid''),
         (''message'', JStr ''bad key'')]"
  let ?e' = "[(''requestId'', JInt 7), (''status'', JStr ''error''),
         (''code'', JStr ''apiKeyInvalid''), (''message'', JStr ''bad key'')]"
  have le: "map_le (map_of ?d) (map_of ?d')"
    by (simp add: map_le_def)
  have k: "map_of ?d ''status'' = Some (JStr ''ok'') \<and> map_of ?d ''totalResults'' = Some (JInt 1)
      \<and> map_of ?d ''articles'' = Some (JList [JStr ''x''])"
    by simp
  have "map_of ?d ''status'' = Some (JStr ''ok'') \<and> map_of ?d ''totalResults'' = Some (JInt 1)
      \<and> map_of ?d ''articles'' = Some (JList [JStr ''x'']) \<longrightarrow>
      success_shape (JDict ?d')
      \<and> fst (match_response (JDict ?d') []) =
          Inr (MetaData (JInt 1),
               Articles (map (\<lambda>a. fst (make_article_record a [])) [JStr ''x'']))
      \<and> fst (match_response (JDict ?d') []) = fst (match_response (JDict ?d) [])"
    using extra_keys_keep_branch [OF le, where lg = "[]" and lg' = "[]"]
    by (rule conjunct1)
  from this k have "fst (match_response (JDict ?d') []) =
      Inr (MetaData (JInt 1),
           Articles (map (\<lambda>a. fst (make_article_record a [])) [JStr ''x'']))"
    by (rule conjunct1 [OF conjunct2 [OF mp]])
  moreover have "fst (make_article_record (JStr ''x'') []) = None"
    by (simp add: make_article_record_def match_article_def)
  ultimately have s: "fst (match_response (JDict ?d') []) = Inr (MetaData (JInt 1), Articles [None])"
    by simp
  have le2: "map_le (map_of ?e) (map_of ?e')"
    by (simp add: map_le_def)
  have k2: "map_of ?e ''status'' = Some (JStr ''error'')
      \<and> map_of ?e ''code'' = Some (JStr ''apiKeyInvalid'')
      \<and> map_of ?e ''message'' = Some (JStr ''bad key'')"
    by simp
  have "map_of ?e ''status'' = Some (JStr ''error'')
      \<and> map_of ?e ''code'' = Some (JStr ''apiKeyInvalid'')
      \<and> map_of ?e ''message'' = Some (JStr ''bad key'') \<longrightarrow>
      reported_error_shape (JDict ?e')
      \<and> fst (match_response (JDict ?e') []) =
          Inl (ResponseError
                (''Error Code: '' @ py_str (JStr ''apiKeyInvalid'') @ [CHR 0x0A] @ ''Message: ''
                 @ py_str (JStr ''bad key'')))
      \<and> fst (match_response (JDict ?e') []) = fst (match_response (JDict ?e) [])"
    using extra_keys_keep_branch [OF le2, where lg = "[]"]
    by (rule conjunct2)
  from this k2 have "fst (match_response (JDict ?e') []) =
      Inl (ResponseError
            (''Error Code: '' @ py_str (JStr ''apiKeyInvalid'') @ [CHR 0x0A] @ ''Message: ''
             @ py_str (JStr ''bad key'')))"
    by (rule conjunct1 [OF conjunct2 [OF mp]])
  then have e: "fst (match_response (JDict ?e') []) =
      Inl (ResponseError (''Error Code: apiKeyInvalid'' @ [CHR 0x0A] @ ''Message: bad key''))"
    by (simp add: py_str_def)
  from s e show ?thesis by (intro conjI)
qed

section \<open>The list of article records\<close>

text \<open>
  Claim C8. For a success-shape document the list \<^verbatim>\<open>Articles.articles\<close> has the length
  of the document's \<^verbatim>\<open>articles\<close>, and its entry at each position is what
  \<open>make_article_record\<close> returns for the article at that position: \<^verbatim>\<open>None\<close> for a
  dropped article, in its place.
\<close>

theorem articles_same_length:
  assumes "map_of d ''status'' = Some (JStr ''ok'')"
    and "map_of d ''totalResults'' = Some tr"
    and "map_of d ''articles'' = Some (JList arts)"
  shows "\<exists>recs. fst (match_response (JDict d) lg) = Inr (MetaData tr, Articles recs)
           \<and> length recs = length arts
           \<and> (\<forall>i<length arts. recs ! i = fst (make_article_record (arts ! i) lg'))"
proof -
  let ?recs = "map (\<lambda>a. fst (make_article_record a [])) arts"
  have m: "match_ok (JDict d) = Some (tr, arts)"
    unfolding match_ok_Some using assms by simp
  have r: "fst (match_response (JDict d) lg) = Inr (MetaData tr, Articles ?recs)"
    by (simp add: match_response_fst m)
  have "\<And>a. fst (make_article_record a lg') = fst (make_article_record a [])"
    by (simp only: make_article_record_fst)
  then have "\<forall>i<length arts. ?recs ! i = fst (make_article_record (arts ! i) lg')"
    by simp
  with r show ?thesis by (intro exI [of _ ?recs]) simp
qed

theorem articles_same_length_witness:
  "\<exists>recs. fst (match_response
           (JDict [(''status'', JStr ''ok''), (''totalResults'', JInt 2),
                   (''articles'', JList [JDict [(''title'', JStr ''T'')], JStr ''x''])]) []) =
         Inr (MetaData (JInt 2), Articles recs)
      \<and> length recs = 2 \<and> recs ! 0 = None \<and> recs ! 1 = None"
proof -
  let ?arts = "[JDict [(''title'', JStr ''T'')], JStr ''x'']"
  let ?d = "[(''status'', JStr ''ok''), (''totalResults'', JInt 2), (''articles'', JList ?arts)]"
  have a: "map_of ?d ''status'' = Some (JStr ''ok'')" by simp
  have b: "map_of ?d ''totalResults'' = Some (JInt 2)" by simp
  have c: "map_of ?d ''articles'' = Some (JList ?arts)" by simp
  from articles_same_length [OF a b c, of "[]" "[]"]
  obtain recs where r: "fst (match_response (JDict ?d) []) = Inr (MetaData (JInt 2), Articles recs)"
    and l: "length recs = length ?arts"
    and i: "\<forall>i<length ?arts. recs ! i = fst (make_article_record (?arts ! i) [])"
    by (elim exE conjE)
  from l have l2: "length recs = 2" by simp
  from i have "recs ! 0 = fst (make_article_record (?arts ! 0) [])" by simp
  then have r0: "recs ! 0 = None"
    by (simp add: make_article_record_def match_article_def)
  from i have "recs ! 1 = fst (make_article_record (?arts ! 1) [])" by simp
  then have r1: "recs ! 1 = None"
    by (simp add: make_article_record_def match_article_def)
  from r l2 r0 r1 show ?thesis by (intro exI [of _ recs] conjI)
qed

text \<open>
  Claim C1 says that a dropped article contributes nothing to the record sequence. In the
  code the generator's filter is \<^verbatim>\<open>if not None\<close>, which holds for every element, so the
  \<^verbatim>\<open>None\<close> of a dropped article is kept: a document with one article that has no
  \<^verbatim>\<open>source\<close> gives the list \<^verbatim>\<open>[None]\<close>, not the empty list.
\<close>

theorem dropped_article_stays_in_list:
  "fst (match_response
         (JDict [(''status'', JStr ''ok''), (''totalResults'', JInt 1),
                 (''articles'', JList [JDict [(''title'', JStr ''T'')]])]) []) =
     Inr (MetaData (JInt 1), Articles [None])"
  by (simp add: match_response_def match_ok_def Articles_init_def make_article_record_def
        match_article_def)

section \<open>Determinism\<close>

lemma ApiResponse_init_fst:
  "fst (ApiResponse_init r lg) =
     (case fst (match_response r lg) of
        Inl e \<Rightarrow> Inl e
      | Inr (m, a) \<Rightarrow> Inr \<lparr>metadata = m, response_articles = a\<rparr>)"
  by (cases "match_response r lg") (auto simp: ApiResponse_init_def split: sum.splits)

text \<open>
  Claim C9. What constructing the response returns (the response object, or the exception
  raised) is the same whatever the state of the logger, the only state outside the call:
  two constructions from the same document give equal results, and so does a second
  construction that follows a first.
\<close>

theorem parse_deterministic:
  "fst (ApiResponse_init doc lg) = fst (ApiResponse_init doc lg')
   \<and> fst (ApiResponse_init doc (snd (ApiResponse_init doc lg))) = fst (ApiResponse_init doc lg)"
proof -
  have "\<And>x y. fst (ApiResponse_init doc x) = fst (ApiResponse_init doc y)"
    by (simp only: ApiResponse_init_fst match_response_fst)
  then show ?thesis by (intro conjI)
qed

end
